theory Spec2Isabelle
  imports Complex_Main
begin

section \<open>Numbers and array helpers\<close>

text \<open>
  JavaScript numbers are modelled as mathematical reals (\<open>real\<close>); array lengths and
  indices are naturals.  \<open>Infinity\<close>, where the code can produce it, is written out as a
  separate case of the model.
\<close>

text \<open>\<open>Array.prototype.filter\<close> with a predicate that looks at the index only.\<close>

definition filter_index :: "(nat \<Rightarrow> bool) \<Rightarrow> 'a list \<Rightarrow> 'a list" where
  "filter_index p xs = map fst (filter (\<lambda>(x, i). p i) (zip xs [0..<length xs]))"

section \<open>UPlot.utils: decimateData\<close>

text \<open>
  \<open>Math.ceil(data.length / maxPoints)\<close>.  \<open>maxPoints\<close> is a point count (a natural).  The
  call is reached only when \<open>data.length > maxPoints\<close>, so for \<open>maxPoints = 0\<close> the quotient is
  \<open>n / 0 = Infinity\<close> with \<open>n > 0\<close>; \<open>None\<close> stands for \<open>Infinity\<close>.
\<close>

definition skipFactor_of :: "nat \<Rightarrow> nat \<Rightarrow> nat option" where
  "skipFactor_of len maxPoints =
     (if maxPoints = 0 then None else Some (nat \<lceil>real len / real maxPoints\<rceil>))"

text \<open>
  \<open>i % skipFactor === 0\<close> for an index \<open>i \<ge> 0\<close>: \<open>i % Infinity\<close> is \<open>i\<close>, and \<open>i % 0\<close> is \<open>NaN\<close>,
  which is never \<open>=== 0\<close>.
\<close>

definition index_selected :: "nat option \<Rightarrow> nat \<Rightarrow> bool" where
  "index_selected skipFactor i =
     (case skipFactor of
        None \<Rightarrow> i = 0
      | Some s \<Rightarrow> s \<noteq> 0 \<and> i mod s = 0)"

definition decimateData :: "'a list \<Rightarrow> nat \<Rightarrow> 'a list" where
  "decimateData data maxPoints =
     (if length data \<le> maxPoints then data
      else let skipFactor = skipFactor_of (length data) maxPoints
           in filter_index (index_selected skipFactor) data)"


section \<open>Data rows and the runtime's date parser\<close>

text \<open>
  A parsed CSV row (\<open>ShipData\<close>): an optional \<open>datetime\<close> string and further named columns.
  A column value is a number, a string or \<open>null\<close>; an absent column is \<open>undefined\<close> (\<open>None\<close>).
\<close>

datatype jsval = JNum real | JStr string | JNull

record ShipData =
  datetime :: "string option"
  cols :: "string \<Rightarrow> jsval option"

text \<open>\<open>d[key]\<close> for a row \<open>d\<close>.\<close>

definition field :: "ShipData \<Rightarrow> string \<Rightarrow> jsval option" where
  "field d key = (if key = ''datetime'' then map_option JStr (datetime d) else cols d key)"

text \<open>Truthiness of \<open>d.datetime\<close>: a string is truthy unless it is empty.\<close>

definition truthy_datetime :: "ShipData \<Rightarrow> bool" where
  "truthy_datetime d = (case datetime d of None \<Rightarrow> False | Some s \<Rightarrow> s \<noteq> [])"

text \<open>
  \<open>new Date(s).getTime()\<close> belongs to the JavaScript runtime, so it is a parameter
  \<open>getTime\<close> of the functions below: \<open>Some t\<close> is the epoch value in milliseconds, \<open>None\<close> is
  \<open>NaN\<close> (an unparseable date).
\<close>

type_synonym date_parser = "string \<Rightarrow> int option"

text \<open>What a handler writes to the console or reports through \<open>setError\<close>, in order.\<close>

datatype effect = ConsoleWarn string | ConsoleError string | SetError string

section \<open>UPlot.utils: processTimestamps\<close>

record pt_options =
  convertToSeconds :: "bool option"
  has_setError :: bool

record TimestampResult =
  timestamps :: "real list option"
  timeIndices :: "nat list"
  sortedTimestamps :: "real list"

text \<open>The callback of \<open>data.map\<close>: the timestamp of one row or \<open>null\<close>, with its warning.\<close>

definition row_timestamp :: "date_parser \<Rightarrow> bool \<Rightarrow> ShipData \<Rightarrow> real option \<times> effect list" where
  "row_timestamp getTime toSeconds d =
     (case datetime d of
        None \<Rightarrow> (None, [])
      | Some s \<Rightarrow>
          if s = [] then (None, [])
          else (case getTime s of
                  None \<Rightarrow> (None, [ConsoleWarn (''Invalid date: '' @ s)])
                | Some t \<Rightarrow> (Some (if toSeconds then real_of_int t / 1000 else real_of_int t), [])))"

text \<open>\<open>.filter(Boolean)\<close> on numbers and \<open>null\<close>: \<open>null\<close> and \<open>0\<close> are falsy.\<close>

fun filter_Boolean :: "real option list \<Rightarrow> real list" where
  "filter_Boolean [] = []"
| "filter_Boolean (None # vs) = filter_Boolean vs"
| "filter_Boolean (Some v # vs) = (if v = 0 then filter_Boolean vs else v # filter_Boolean vs)"

definition no_timestamps_message :: string where
  "no_timestamps_message = ''No valid timestamps found in the data''"

text \<open>
  \<open>Array.prototype.sort\<close> is stable; with the comparator \<open>timestamps[a] - timestamps[b]\<close> on
  finite numbers it is the stable sort by the key \<open>timestamps[i]\<close>, which is \<open>sort_key\<close>.
\<close>

definition processTimestamps ::
  "date_parser \<Rightarrow> pt_options \<Rightarrow> ShipData list \<Rightarrow> TimestampResult \<times> effect list" where
  "processTimestamps getTime options data =
     (let toSeconds = (case convertToSeconds options of None \<Rightarrow> True | Some b \<Rightarrow> b);
          mapped = map (row_timestamp getTime toSeconds) data;
          warnings = concat (map snd mapped);
          ts = filter_Boolean (map fst mapped)
      in if length ts = 0 then
           (\<lparr>timestamps = Some [], timeIndices = [], sortedTimestamps = []\<rparr>,
            warnings @ [ConsoleError no_timestamps_message] @
              (if has_setError options then [SetError no_timestamps_message] else []))
         else
           (let indices = sort_key (\<lambda>i. ts ! i) [0..<length ts]
            in (\<lparr>timestamps = None, timeIndices = indices,
                 sortedTimestamps = map (\<lambda>i. ts ! i) indices\<rparr>,
                warnings)))"

section \<open>TimeSeriesPlot: getFilteredData and processChartData\<close>

text \<open>The date-range test of one row: a comparison with \<open>NaN\<close> is false.\<close>

definition in_date_range :: "date_parser \<Rightarrow> real \<Rightarrow> real \<Rightarrow> ShipData \<Rightarrow> bool" where
  "in_date_range getTime lo hi d =
     (case datetime d of
        None \<Rightarrow> False
      | Some s \<Rightarrow>
          if s = [] then False
          else (case getTime s of
                  None \<Rightarrow> False
                | Some t \<Rightarrow> real_of_int t \<ge> lo \<and> real_of_int t \<le> hi))"

definition validData_of :: "ShipData list \<Rightarrow> string \<Rightarrow> ShipData list" where
  "validData_of data dataColumn =
     filter (\<lambda>d. truthy_datetime d \<and> field d dataColumn \<noteq> None) data"

definition getFilteredData ::
  "date_parser \<Rightarrow> ShipData list \<Rightarrow> string \<Rightarrow> real option \<Rightarrow> real option \<Rightarrow> nat \<Rightarrow> ShipData list" where
  "getFilteredData getTime data dataColumn minDate maxDate MAX_POINTS =
     (let validData = validData_of data dataColumn
      in case (minDate, maxDate) of
           (Some lo, Some hi) \<Rightarrow> filter (in_date_range getTime lo hi) validData
         | _ \<Rightarrow>
             if length validData > MAX_POINTS then decimateData validData MAX_POINTS
             else validData)"

text \<open>
  \<open>filteredData[i][dataColumn]\<close> narrowed by \<open>typeof value === 'number'\<close>.  Reading a column of
  \<open>filteredData[i]\<close> throws a \<open>TypeError\<close> when \<open>i\<close> is out of range (the row is \<open>undefined\<close>):
  that is the outer \<open>None\<close>.
\<close>

definition column_value :: "ShipData list \<Rightarrow> string \<Rightarrow> nat \<Rightarrow> real option option" where
  "column_value rows dataColumn i =
     (if i < length rows then
        Some (case field (rows ! i) dataColumn of Some (JNum v) \<Rightarrow> Some v | _ \<Rightarrow> None)
      else None)"

text \<open>
  The outcome of \<open>processChartData\<close>: the component's \<open>error\<close> state after the call and the
  returned chart data (\<open>null\<close> is \<open>None\<close>), a pair of the sorted timestamps and the values.
\<close>

record ChartOutcome =
  error_state :: "string option"
  chart :: "(real list \<times> real option list) option"

text \<open>
  The body of the \<open>try\<close> block: \<open>Inl\<close> is an exception thrown inside it, \<open>Inr\<close> its normal
  completion.  \<open>setError(null)\<close> comes first, so an outcome without a message has
  \<open>error_state = None\<close>.
\<close>

datatype exn = TypeError

definition processChartData_try ::
  "date_parser \<Rightarrow> ShipData list \<Rightarrow> string \<Rightarrow> real option \<Rightarrow> real option \<Rightarrow> nat
     \<Rightarrow> exn + ChartOutcome" where
  "processChartData_try getTime data dataColumn minDate maxDate MAX_POINTS =
     (let filteredData = getFilteredData getTime data dataColumn minDate maxDate MAX_POINTS
      in if length filteredData = 0 then
           Inr \<lparr>error_state = Some (''No valid data points found with both datetime and ''
                  @ dataColumn @ '' values in selected range''),
                chart = None\<rparr>
         else
           (let res = fst (processTimestamps getTime
                        \<lparr>convertToSeconds = Some True, has_setError = False\<rparr> filteredData)
            in case those (map (column_value filteredData dataColumn) (timeIndices res)) of
                 None \<Rightarrow> Inl TypeError
               | Some vals \<Rightarrow>
                   if length (filter (\<lambda>v. v \<noteq> None) vals) = 0 then
                     Inr \<lparr>error_state = Some (''No valid '' @ dataColumn
                              @ '' values found in the data in selected range''),
                          chart = None\<rparr>
                   else
                     Inr \<lparr>error_state = None, chart = Some (sortedTimestamps res, vals)\<rparr>))"

text \<open>
  The \<open>catch\<close> block reports the exception through \<open>setError\<close> and returns \<open>null\<close>; the text
  after the prefix is the engine's message for the exception.
\<close>

definition processChartData ::
  "date_parser \<Rightarrow> ShipData list \<Rightarrow> string \<Rightarrow> real option \<Rightarrow> real option \<Rightarrow> nat \<Rightarrow> ChartOutcome" where
  "processChartData getTime data dataColumn minDate maxDate MAX_POINTS =
     (case processChartData_try getTime data dataColumn minDate maxDate MAX_POINTS of
        Inl TypeError \<Rightarrow>
          \<lparr>error_state = Some (''Error processing data: '' @ ''TypeError''), chart = None\<rparr>
      | Inr outcome \<Rightarrow> outcome)"

text \<open>
  Two predicates on rows, used to state what \<open>processTimestamps\<close> keeps and what it warns
  about.  A row survives when its \<open>datetime\<close> is a non-empty string that parses to a non-zero
  epoch value; it is unparseable when its \<open>datetime\<close> is a non-empty string that does not
  parse.
\<close>

definition survives :: "date_parser \<Rightarrow> ShipData \<Rightarrow> bool" where
  "survives getTime d =
     (case datetime d of
        None \<Rightarrow> False
      | Some s \<Rightarrow> s \<noteq> [] \<and> (case getTime s of None \<Rightarrow> False | Some t \<Rightarrow> t \<noteq> 0))"

definition unparseable :: "date_parser \<Rightarrow> ShipData \<Rightarrow> bool" where
  "unparseable getTime d =
     (case datetime d of None \<Rightarrow> False | Some s \<Rightarrow> s \<noteq> [] \<and> getTime s = None)"

definition invalid_date_warnings :: "date_parser \<Rightarrow> ShipData list \<Rightarrow> effect list" where
  "invalid_date_warnings getTime data =
     map (\<lambda>d. ConsoleWarn (''Invalid date: '' @ the (datetime d)))
       (filter (unparseable getTime) data)"

text \<open>The rows of the end-to-end scenario, with the time in \<open>datetime\<close> and the column \<open>v\<close>.\<close>

definition scenario_rows :: "ShipData list" where
  "scenario_rows =
     [\<lparr>datetime = Some ''2024-01-01T00:00:01Z'', cols = [''v'' \<mapsto> JNum 10]\<rparr>,
      \<lparr>datetime = Some ''bad'', cols = [''v'' \<mapsto> JNum 20]\<rparr>,
      \<lparr>datetime = Some ''2024-01-01T00:00:00Z'', cols = [''v'' \<mapsto> JNum 30]\<rparr>]"

section \<open>Axis ranges: paddedRange and guardedRange\<close>

text \<open>
  The unused \<open>uPlot\<close> argument of both functions is left out; \<open>minv\<close> and \<open>maxv\<close> are the
  parameters \<open>min\<close> and \<open>max\<close> (\<open>None\<close> is \<open>null\<close>).
\<close>

definition paddedRange :: "real option \<Rightarrow> real option \<Rightarrow> real \<Rightarrow> real \<times> real" where
  "paddedRange minv maxv axis =
     (case (minv, maxv) of
        (Some lo, Some hi) \<Rightarrow>
          if lo = hi then (if axis = 1 then (-100, 0) else (0, 100))
          else (let range = hi - lo; padding = range * 0.05
                in (lo - padding, hi + padding))
      | _ \<Rightarrow> (if axis = 1 then (-100, 0) else (0, 100)))"

definition guardedRange :: "real option \<Rightarrow> real option \<Rightarrow> real \<times> real" where
  "guardedRange minv maxv =
     (if maxv = minv then
        (case minv of
           None \<Rightarrow> (0, 100)
         | Some m \<Rightarrow>
             (let delta = (if \<bar>m\<bar> = 0 then 100 else \<bar>m\<bar>)
              in (m - delta, m + delta)))
      else paddedRange minv maxv 0)"

section \<open>wheelZoomPlugin: the viewport state and its handlers\<close>

text \<open>
  The chart library owns the scales; \<open>u.setScale(key, {min, max})\<close> is modelled as the
  assignment of both bounds of the named scale.  \<open>y_distr\<close> is \<open>u.scales.y.distr\<close> (3 is the
  logarithmic distribution).
\<close>

record scales =
  x_min :: real
  x_max :: real
  y_min :: real
  y_max :: real
  y_distr :: nat

text \<open>The bounds captured once by the \<open>ready\<close> hook.\<close>

record extent =
  xMin :: real
  xMax :: real
  yMin :: real
  yMax :: real

definition xRange :: "extent \<Rightarrow> real" where
  "xRange e = xMax e - xMin e"

definition yRange :: "extent \<Rightarrow> real" where
  "yRange e = yMax e - yMin e"

definition ready :: "scales \<Rightarrow> extent" where
  "ready s = \<lparr>xMin = x_min s, xMax = x_max s, yMin = y_min s, yMax = y_max s\<rparr>"

definition xPaddingFactor :: real where
  "xPaddingFactor = 0.01"

definition yPaddingFactor :: real where
  "yPaddingFactor = 0.01"

text \<open>\<open>opts.factor || 0.75\<close>\<close>

definition factor_of :: "real \<Rightarrow> real" where
  "factor_of opts_factor = (if opts_factor = 0 then 0.75 else opts_factor)"

definition clamp :: "real \<Rightarrow> real \<Rightarrow> real \<Rightarrow> real \<Rightarrow> real \<Rightarrow> real \<Rightarrow> real \<times> real" where
  "clamp nRange nMin nMax fRange fMin fMax =
     (if nRange > fRange then (fMin, fMax)
      else if nMin < fMin then (fMin, fMin + nRange)
      else if nMax > fMax then (fMax - nRange, fMax)
      else (nMin, nMax))"

subsection \<open>Middle-button drag pan\<close>

text \<open>What the \<open>mousedown\<close> handler on the plot captures for its \<open>onmove\<close> listener.\<close>

record drag =
  left0 :: real
  top0 :: real
  scXMin0 :: real
  scXMax0 :: real
  scYMin0 :: real
  scYMax0 :: real
  xUnitsPerPx :: real
  yUnitsPerPx :: real

definition onmove :: "extent \<Rightarrow> drag \<Rightarrow> real \<Rightarrow> real \<Rightarrow> scales \<Rightarrow> scales" where
  "onmove e d clientX clientY s =
     (let dx = xUnitsPerPx d * (clientX - left0 d);
          dy = yUnitsPerPx d * (clientY - top0 d);
          newXMin = scXMin0 d - dx;
          newXMax = scXMax0 d - dx;
          newYMin = scYMin0 d - dy;
          newYMax = scYMax0 d - dy;
          s1 = (if newXMin \<ge> xMin e - xPaddingFactor * xRange e
                   \<and> newXMax \<le> xMax e + xPaddingFactor * xRange e
                then s\<lparr>x_min := newXMin, x_max := newXMax\<rparr> else s)
      in if y_distr s1 = 3 then
           (if newYMin > 1 / 10 ^ 20 \<and> newYMin \<ge> yMin e - yPaddingFactor * yRange e
                \<and> newYMax \<le> yMax e + yPaddingFactor * yRange e
            then s1\<lparr>y_min := newYMin, y_max := newYMax\<rparr> else s1)
         else
           (if newYMin \<ge> yMin e - yPaddingFactor * yRange e
                \<and> newYMax \<le> yMax e + yPaddingFactor * yRange e
            then s1\<lparr>y_min := newYMin, y_max := newYMax\<rparr> else s1))"

text \<open>
  The pointer events of the drag pan.  \<open>Mousedown\<close> carries the pressed button, the pointer
  position and the two values \<open>u.posToVal(1, k) - u.posToVal(0, k)\<close> the library returns at that
  moment.  Each accepted \<open>mousedown\<close> registers one \<open>onmove\<close> listener on the document, a
  \<open>mousemove\<close> runs every registered listener, and \<open>mouseup\<close> removes them.
\<close>

datatype pan_event =
  Mousedown nat real real real real
| Mousemove real real
| Mouseup

fun pan_step :: "extent \<Rightarrow> pan_event \<Rightarrow> scales \<times> drag list \<Rightarrow> scales \<times> drag list" where
  "pan_step e (Mousedown button clientX clientY xUnits yUnits) (s, listeners) =
     (if button = 1 then
        (s, listeners @ [\<lparr>left0 = clientX, top0 = clientY,
                          scXMin0 = x_min s, scXMax0 = x_max s,
                          scYMin0 = y_min s, scYMax0 = y_max s,
                          xUnitsPerPx = xUnits, yUnitsPerPx = yUnits\<rparr>])
      else (s, listeners))"
| "pan_step e (Mousemove clientX clientY) (s, listeners) =
     (fold (\<lambda>d. onmove e d clientX clientY) listeners s, listeners)"
| "pan_step e Mouseup (s, listeners) = (s, [])"

definition pan_run :: "extent \<Rightarrow> pan_event list \<Rightarrow> scales \<times> drag list \<Rightarrow> scales \<times> drag list" where
  "pan_run e events st = fold (pan_step e) events st"

text \<open>The pan limits: the captured extent widened by 1% of its range on each side.\<close>

definition within_limits :: "extent \<Rightarrow> scales \<Rightarrow> bool" where
  "within_limits e s =
     (x_min s \<ge> xMin e - 0.01 * xRange e \<and> x_max s \<le> xMax e + 0.01 * xRange e \<and>
      y_min s \<ge> yMin e - 0.01 * yRange e \<and> y_max s \<le> yMax e + 0.01 * yRange e)"

subsection \<open>Axis drag\<close>

text \<open>
  The \<open>mousedown\<close> handler the \<open>init\<close> hook puts on every axis element but the first; here for
  the axis of the \<open>y\<close> scale.  \<open>unitsPerPx\<close> is \<open>(max - min) / (u.bbox.height / uPlot.pxRatio)\<close>.
\<close>

record axis_drag =
  y0 :: real
  min0 :: real
  max0 :: real
  unitsPerPx :: real

definition axis_mousedown :: "scales \<Rightarrow> real \<Rightarrow> real \<Rightarrow> real \<Rightarrow> axis_drag" where
  "axis_mousedown s clientY bbox_height pxRatio =
     \<lparr>y0 = clientY, min0 = y_min s, max0 = y_max s,
      unitsPerPx = (y_max s - y_min s) / (bbox_height / pxRatio)\<rparr>"

definition axis_mousemove :: "axis_drag \<Rightarrow> real \<Rightarrow> bool \<Rightarrow> scales \<Rightarrow> scales" where
  "axis_mousemove d clientY shiftKey s =
     (let dy = clientY - y0 d;
          shiftyBy = dy * unitsPerPx d
      in s\<lparr>y_min := (if shiftKey then min0 d - shiftyBy else min0 d + shiftyBy),
           y_max := max0 d + shiftyBy\<rparr>)"

subsection \<open>Wheel zoom\<close>

text \<open>
  One \<open>wheel\<close> event.  \<open>left\<close> and \<open>top\<close> are \<open>u.cursor.left\<close> and \<open>u.cursor.top\<close>, \<open>rect_width\<close> and
  \<open>rect_height\<close> the size of the plot area measured by the \<open>ready\<close> hook, \<open>xVal\<close> and \<open>yVal\<close> the
  values \<open>u.posToVal(left, "x")\<close> and \<open>u.posToVal(top, "y")\<close> the library returns.  The zoom
  factor is \<open>opts.factor || 0.75\<close>, so it is never zero.  Both scales are set inside one
  \<open>u.batch\<close>.

  With a zero \<open>rect_width\<close> or \<open>rect_height\<close> the fractions \<open>left / rect.width\<close> and
  \<open>top / rect.height\<close> are \<open>Infinity\<close> or \<open>NaN\<close>, values the reals do not have: \<open>None\<close> marks that
  case.  Otherwise the result is computed in exact arithmetic.  The code computes in doubles,
  and the strict comparisons of \<open>clamp\<close> can be decided by a rounding error (a range
  \<open>r * 0.9 / 0.9\<close> may come out one unit in the last place above \<open>r\<close>); the function is
  therefore evaluated below only at an input where every intermediate value is the same in
  double arithmetic.
\<close>

record wheel_event =
  deltaY :: real
  left :: real
  top :: real
  xVal :: real
  yVal :: real

definition wheel ::
  "real \<Rightarrow> extent \<Rightarrow> real \<Rightarrow> real \<Rightarrow> wheel_event \<Rightarrow> scales \<Rightarrow> scales option" where
  "wheel opts_factor e rect_width rect_height ev s =
     (if rect_width = 0 \<or> rect_height = 0 then None
      else Some
        (let factor = factor_of opts_factor;
             leftPct = left ev / rect_width;
             btmPct = 1 - top ev / rect_height;
             oxRange = x_max s - x_min s;
             oyRange = y_max s - y_min s;
             nxRange = (if deltaY ev < 0 then oxRange * factor else oxRange / factor);
             nxMin = xVal ev - leftPct * nxRange;
             nxMax = nxMin + nxRange;
             nx = clamp nxRange nxMin nxMax (xRange e)
                    (xMin e - xPaddingFactor * xRange e) (xMax e + xPaddingFactor * xRange e);
             nyRange = (if deltaY ev < 0 then oyRange * factor else oyRange / factor);
             nyMin = yVal ev - btmPct * nyRange;
             nyMax = nyMin + nyRange;
             ny = clamp nyRange nyMin nyMax (yRange e) (yMin e) (yMax e)
         in s\<lparr>x_min := fst nx, x_max := snd nx, y_min := fst ny, y_max := snd ny\<rparr>))"

section \<open>PositionPlot: hover hit resolution\<close>

text \<open>A registered marker box: a quadtree item with its series and data index.\<close>

record QuadTree =
  qt_x :: real
  qt_y :: real
  qt_w :: real
  qt_h :: real
  seriesIndex :: nat
  dataIndex :: "nat option"

text \<open>
  Modelled from the spec: \<open>pointWithin\<close> is imported from the module \<open>@/lib/quadtree\<close>, which is
  not among the sources.  The spec has a candidate accepted "only if the cursor lies within
  the box", the bounds being "inclusive of edges".
\<close>

definition pointWithin :: "real \<Rightarrow> real \<Rightarrow> real \<Rightarrow> real \<Rightarrow> real \<Rightarrow> real \<Rightarrow> bool" where
  "pointWithin px py rlft rtop rrgt rbtm =
     (px \<ge> rlft \<and> px \<le> rrgt \<and> py \<ge> rtop \<and> py \<le> rbtm)"

text \<open>The distance from the cursor to the centre of a box.\<close>

definition centre_dist :: "real \<Rightarrow> real \<Rightarrow> QuadTree \<Rightarrow> real" where
  "centre_dist cx cy qt =
     (let ocx = qt_x qt + qt_w qt / 2;
          ocy = qt_y qt + qt_h qt / 2;
          dx = ocx - cx;
          dy = ocy - cy
      in sqrt (dx * dx + dy * dy))"

text \<open>
  The two variables the callback updates: \<open>minDist\<close> (\<open>None\<close> is its initial \<open>Infinity\<close>) and
  \<open>hoverPointRef.current\<close>.
\<close>

record hover_state =
  minDist :: "real option"
  hoverPoint :: "QuadTree option"

text \<open>The callback passed to the quadtree's \<open>get\<close>, run on one visited item.\<close>

definition hover_visit :: "real \<Rightarrow> real \<Rightarrow> QuadTree \<Rightarrow> hover_state \<Rightarrow> hover_state" where
  "hover_visit cx cy qt st =
     (if pointWithin cx cy (qt_x qt) (qt_y qt) (qt_x qt + qt_w qt) (qt_y qt + qt_h qt) then
        (let d = centre_dist cx cy qt
         in if d \<le> qt_w qt / 2 \<and> (case minDist st of None \<Rightarrow> True | Some m \<Rightarrow> d < m)
            then \<lparr>minDist = Some d, hoverPoint = Some qt\<rparr>
            else st)
      else st)"

text \<open>
  The quadtree itself is not among the sources: \<open>candidates\<close> is the sequence of items its
  \<open>get(cx, cy, 1, 1, callback)\<close> visits, in traversal order.
\<close>

definition resolveHover :: "real \<Rightarrow> real \<Rightarrow> QuadTree list \<Rightarrow> QuadTree option" where
  "resolveHover cx cy candidates =
     hoverPoint (fold (hover_visit cx cy) candidates \<lparr>minDist = None, hoverPoint = None\<rparr>)"

text \<open>
  A candidate is a hit when it passes both tests of the callback that do not depend on the
  candidates seen before: the cursor lies within its box, and the distance from the cursor to
  its centre is at most half its width.
\<close>

definition hit :: "real \<Rightarrow> real \<Rightarrow> QuadTree \<Rightarrow> bool" where
  "hit cx cy qt =
     (pointWithin cx cy (qt_x qt) (qt_y qt) (qt_x qt + qt_w qt) (qt_y qt + qt_h qt) \<and>
      centre_dist cx cy qt \<le> qt_w qt / 2)"

text \<open>
  The invariant of the scan over the candidates visited so far: nothing is selected (and
  \<open>minDist\<close> is still \<open>Infinity\<close>) iff none of them is a hit; otherwise \<open>minDist\<close> is the
  distance of the selected item, which is a hit at some position \<open>i\<close>, no farther than any
  hit, and strictly closer than every hit before \<open>i\<close>.
\<close>

definition hover_inv :: "real \<Rightarrow> real \<Rightarrow> QuadTree list \<Rightarrow> hover_state \<Rightarrow> bool" where
  "hover_inv cx cy visited st =
     (case hoverPoint st of
        None \<Rightarrow> minDist st = None \<and> (\<forall>q\<in>set visited. \<not> hit cx cy q)
      | Some q \<Rightarrow>
          minDist st = Some (centre_dist cx cy q) \<and>
          (\<exists>i<length visited. visited ! i = q \<and> hit cx cy q \<and>
             (\<forall>j<length visited. hit cx cy (visited ! j) \<longrightarrow>
                centre_dist cx cy q \<le> centre_dist cx cy (visited ! j)) \<and>
             (\<forall>j<i. hit cx cy (visited ! j) \<longrightarrow>
                centre_dist cx cy q < centre_dist cx cy (visited ! j))))"

text \<open>
  \<open>cursor.dataIdx\<close>: the result for the series \<open>seriesIdx\<close> and the new value of
  \<open>hoverPointRef.current\<close>.  \<open>cursor_left\<close> and \<open>cursor_top\<close> are \<open>u.cursor.left\<close> and
  \<open>u.cursor.top\<close> (\<open>None\<close> when undefined); \<open>get cx cy\<close> is the sequence the quadtree visits, empty
  when there is no tree yet.
\<close>

definition cursor_px :: "real option \<Rightarrow> real \<Rightarrow> real" where
  "cursor_px pos pxRatio = (case pos of None \<Rightarrow> 0 | Some p \<Rightarrow> p) * pxRatio"

definition dataIdx ::
  "bool \<Rightarrow> real \<Rightarrow> real option \<Rightarrow> real option \<Rightarrow> (real \<Rightarrow> real \<Rightarrow> QuadTree list) \<Rightarrow> nat
     \<Rightarrow> QuadTree option \<Rightarrow> nat option \<times> QuadTree option" where
  "dataIdx useQuadtree pxRatio cursor_left cursor_top get seriesIdx hoverPointRef =
     (let hover =
            (if seriesIdx = 1 then
               (if useQuadtree then
                  (let cx = cursor_px cursor_left pxRatio;
                       cy = cursor_px cursor_top pxRatio
                   in resolveHover cx cy (get cx cy))
                else None)
             else hoverPointRef)
      in if \<not> useQuadtree then (None, hover)
         else (case hover of
                 None \<Rightarrow> (None, hover)
               | Some qt \<Rightarrow>
                   if seriesIndex qt = seriesIdx \<and> dataIndex qt \<noteq> None
                   then (dataIndex qt, hover)
                   else (None, hover)))"

section \<open>Properties of decimateData\<close>

lemma ceiling_quotient_nat:
  assumes "0 < m"
  shows "nat \<lceil>real n / real m\<rceil> = (n + m - 1) div m"
proof -
  define q where "q = (n + m - 1) div m"
  define r where "r = (n + m - 1) mod m"
  have e: "q * m + r = n + m - 1" unfolding q_def r_def by simp
  have r: "r < m" unfolding r_def using assms by simp
  have up: "n \<le> q * m" using e r assms by linarith
  have lo: "q * m < n + m" using e assms by linarith
  have "real n \<le> real (q * m)" using up by (simp only: of_nat_le_iff)
  then have a: "real n / real m \<le> real q" using assms by (simp add: pos_divide_le_eq)
  have "real (q * m) < real (n + m)" using lo by (simp only: of_nat_less_iff)
  then have "(real q - 1) * real m < real n" by (simp add: algebra_simps)
  then have b: "real q - 1 < real n / real m" using assms by (simp add: pos_less_divide_eq)
  have "\<lceil>real n / real m\<rceil> = int q"
    by (rule ceiling_unique) (use a b in simp_all)
  then show ?thesis by (simp add: q_def)
qed

lemma length_filter_multiples:
  "0 < s \<Longrightarrow> length (filter (\<lambda>i. i mod s = 0) [0..<n]) = (n + s - 1) div s"
proof (induction n)
  case 0
  then show ?case by simp
next
  case (Suc n)
  have s: "0 < s" by fact
  define q where "q = n div s"
  define r where "r = n mod s"
  have n: "n = s * q + r" and r: "r < s" unfolding q_def r_def using s by simp_all
  have A: "(n + s) div s = q + 1" using s by (simp add: q_def)
  have B: "(n + s - 1) div s = (if r = 0 then q else q + 1)"
  proof (cases "r = 0")
    case True
    have "(n + s - 1) div s = q"
    proof (rule div_nat_eqI)
      show "s * q \<le> n + s - 1" using n s True by linarith
      show "n + s - 1 < s * Suc q" unfolding mult_Suc_right using n s True by linarith
    qed
    with True show ?thesis by simp
  next
    case False
    have "(n + s - 1) div s = q + 1"
    proof (rule div_nat_eqI)
      show "s * (q + 1) \<le> n + s - 1"
        unfolding add_mult_distrib2 using n s False by simp
      show "n + s - 1 < s * Suc (q + 1)"
        unfolding mult_Suc_right add_mult_distrib2 using n s r False by simp
    qed
    with False show ?thesis by simp
  qed
  have "(Suc n + s - 1) div s = (n + s - 1) div s + (if n mod s = 0 then 1 else 0)"
    using A B by (simp add: r_def)
  then show ?case using Suc by simp
qed

lemma filter_index_nth:
  "filter_index p xs = map (\<lambda>i. xs ! i) (filter p [0..<length xs])"
proof (induction xs rule: rev_induct)
  case Nil
  show ?case by (simp add: filter_index_def)
next
  case (snoc x xs)
  have z: "zip (xs @ [x]) [0..<length (xs @ [x])] = zip xs [0..<length xs] @ [(x, length xs)]"
    by simp
  have m: "map ((!) (xs @ [x])) (filter p [0..<length xs]) = map ((!) xs) (filter p [0..<length xs])"
    by (rule map_cong) (auto simp: nth_append)
  show ?case using snoc m unfolding filter_index_def z by simp
qed

lemma stride_count_le:
  assumes "n \<le> s * m" "0 < s"
  shows "(n + s - 1) div s \<le> (m::nat)"
proof -
  have "n + s - 1 < s * Suc m" unfolding mult_Suc_right using assms by linarith
  then have "(n + s - 1) div s < Suc m"
    using assms(2) by (simp add: div_less_iff_less_mult mult.commute)
  then show ?thesis by simp
qed

lemma stride_covers:
  assumes "0 < m"
  shows "n \<le> ((n + m - 1) div m) * (m::nat)"
proof -
  define q where "q = (n + m - 1) div m"
  define r where "r = (n + m - 1) mod m"
  have e: "q * m + r = n + m - 1" unfolding q_def r_def by simp
  have r: "r < m" unfolding r_def using assms by simp
  show ?thesis unfolding q_def[symmetric] using e r assms by linarith
qed

lemma decimateData_strided:
  assumes "maxPoints < length data" "0 < maxPoints"
  shows "decimateData data maxPoints =
           map (\<lambda>i. data ! i)
             (filter (\<lambda>i. i mod nat \<lceil>real (length data) / real maxPoints\<rceil> = 0)
                [0..<length data])"
    and "0 < nat \<lceil>real (length data) / real maxPoints\<rceil>"
proof -
  let ?s = "nat \<lceil>real (length data) / real maxPoints\<rceil>"
  have s: "?s = (length data + maxPoints - 1) div maxPoints"
    using assms(2) by (rule ceiling_quotient_nat)
  have "maxPoints \<le> length data + maxPoints - 1" using assms by linarith
  then have "1 \<le> (length data + maxPoints - 1) div maxPoints"
    using assms(2) by (simp add: Suc_le_eq div_greater_zero_iff)
  then show pos: "0 < ?s" using s by simp
  have sel: "index_selected (Some ?s) = (\<lambda>i. i mod ?s = 0)"
    using pos by (simp add: index_selected_def fun_eq_iff)
  show "decimateData data maxPoints =
          map (\<lambda>i. data ! i) (filter (\<lambda>i. i mod ?s = 0) [0..<length data])"
    using assms sel by (simp add: decimateData_def skipFactor_of_def filter_index_nth)
qed

lemma decimateData_length_le:
  assumes "0 < maxPoints"
  shows "length (decimateData data maxPoints) \<le> maxPoints"
proof (cases "length data \<le> maxPoints")
  case True
  then show ?thesis by (simp add: decimateData_def)
next
  case False
  then have big: "maxPoints < length data" by simp
  let ?s = "nat \<lceil>real (length data) / real maxPoints\<rceil>"
  have s: "?s = (length data + maxPoints - 1) div maxPoints"
    using assms by (rule ceiling_quotient_nat)
  have pos: "0 < ?s" using decimateData_strided(2)[OF big assms] .
  have "length (decimateData data maxPoints) = (length data + ?s - 1) div ?s"
    using decimateData_strided(1)[OF big assms] length_filter_multiples[OF pos] by simp
  moreover have "length data \<le> ?s * maxPoints"
    unfolding s using stride_covers[OF assms, of "length data"] by simp
  ultimately show ?thesis using stride_count_le[OF _ pos] by simp
qed

text \<open>
  C7.  \<open>decimateData data maxPoints\<close> returns \<open>data\<close> unchanged when
  \<open>length data \<le> maxPoints\<close>.  Otherwise, for \<open>maxPoints \<ge> 1\<close>, it returns exactly the elements
  whose index is divisible by \<open>stride = ceil (length data / maxPoints)\<close>, from index 0 on and in
  order.  For every \<open>maxPoints \<ge> 1\<close> the result has at most \<open>maxPoints\<close> elements.  A list of
  50000 elements with \<open>maxPoints = 20000\<close> gives stride 3 and 16667 elements.
\<close>

theorem decimateData_spec:
  "(length data \<le> maxPoints \<longrightarrow> decimateData data maxPoints = data) \<and>
   (maxPoints < length data \<and> 0 < maxPoints \<longrightarrow>
      decimateData data maxPoints =
        map (\<lambda>i. data ! i)
          (filter (\<lambda>i. nat \<lceil>real (length data) / real maxPoints\<rceil> dvd i) [0..<length data])) \<and>
   (0 < maxPoints \<longrightarrow> length (decimateData data maxPoints) \<le> maxPoints) \<and>
   (length data = 50000 \<longrightarrow>
      skipFactor_of (length data) 20000 = Some 3 \<and> length (decimateData data 20000) = 16667)"
proof (intro conjI impI)
  assume "length data \<le> maxPoints"
  then show "decimateData data maxPoints = data" by (simp add: decimateData_def)
next
  assume a: "maxPoints < length data \<and> 0 < maxPoints"
  then show "decimateData data maxPoints =
      map (\<lambda>i. data ! i)
        (filter (\<lambda>i. nat \<lceil>real (length data) / real maxPoints\<rceil> dvd i) [0..<length data])"
    using decimateData_strided(1)[of maxPoints data] by (simp add: mod_eq_0_iff_dvd)
next
  assume "0 < maxPoints"
  then show "length (decimateData data maxPoints) \<le> maxPoints"
    by (rule decimateData_length_le)
next
  assume l: "length data = 50000"
  have c: "nat \<lceil>real (50000::nat) / real (20000::nat)\<rceil> = 3"
    by (simp add: ceiling_quotient_nat)
  show "skipFactor_of (length data) 20000 = Some 3"
    using c by (simp add: skipFactor_of_def l)
  have "length (decimateData data 20000) = (50000 + 3 - 1) div 3"
    using decimateData_strided(1)[of 20000 data] length_filter_multiples[of 3 50000] c l
    by simp
  then show "length (decimateData data 20000) = 16667" by simp
qed

theorem decimateData_spec_witness:
  "length [10, 11, 12, 13, 14, 15, 16 :: nat] = 7 \<and> (3::nat) < 7 \<and>
   decimateData [10, 11, 12, 13, 14, 15, 16 :: nat] 3 = [10, 13, 16] \<and>
   length (decimateData [10, 11, 12, 13, 14, 15, 16 :: nat] 3) \<le> 3 \<and>
   decimateData [10, 11 :: nat] 5 = [10, 11] \<and>
   length (decimateData (replicate 50000 (0::nat)) 20000) = 16667"
proof -
  let ?L = "[10, 11, 12, 13, 14, 15, 16 :: nat]"
  have len: "length ?L = 7" by simp
  have c: "nat \<lceil>real (7::nat) / real (3::nat)\<rceil> = 3"
    by (simp add: ceiling_quotient_nat)
  have f: "filter (\<lambda>i. (3::nat) dvd i) [0..<7] = [0, 3, 6]"
    by code_simp
  note a = decimateData_spec[of ?L 3, unfolded len c f]
  note b = decimateData_spec[of "[10, 11 :: nat]" 5]
  note d = decimateData_spec[of "replicate 50000 (0::nat)" 20000]
  have 1: "decimateData ?L 3 = [10, 13, 16]" using a by simp
  have 2: "length (decimateData ?L 3) \<le> 3" using a by simp
  have 3: "decimateData [10, 11 :: nat] 5 = [10, 11]" using b by simp
  have l: "length (replicate 50000 (0::nat)) = 50000" by simp
  have 4: "length (decimateData (replicate 50000 (0::nat)) 20000) = 16667" using d l by blast
  show ?thesis using 1 2 3 4 by simp
qed

text \<open>
  For \<open>maxPoints = 0\<close> the stride is \<open>Infinity\<close> and index 0 alone is selected: a one-element
  list is returned whole, which is longer than \<open>maxPoints\<close>.
\<close>

theorem decimateData_length_counterexample:
  "decimateData [7::nat] 0 = [7] \<and> \<not> length (decimateData [7::nat] 0) \<le> 0"
  by (simp add: decimateData_def skipFactor_of_def filter_index_def index_selected_def)

section \<open>Properties of processTimestamps and its callers\<close>

lemma filter_Boolean_append:
  "filter_Boolean (xs @ ys) = filter_Boolean xs @ filter_Boolean ys"
  by (induction xs rule: filter_Boolean.induct) auto

lemma row_timestamp_survives:
  "(case fst (row_timestamp getTime c d) of None \<Rightarrow> False | Some v \<Rightarrow> v \<noteq> 0)
     = survives getTime d"
  by (auto simp: row_timestamp_def survives_def split: option.splits)

lemma length_surviving_timestamps:
  "length (filter_Boolean (map fst (map (row_timestamp getTime c) data)))
     = length (filter (survives getTime) data)"
proof (induction data)
  case Nil
  show ?case by simp
next
  case (Cons d ds)
  show ?case
    using Cons row_timestamp_survives[of getTime c d]
    by (cases "fst (row_timestamp getTime c d)") auto
qed

lemma row_warnings:
  "concat (map snd (map (row_timestamp getTime c) data)) = invalid_date_warnings getTime data"
proof (induction data)
  case Nil
  show ?case by (simp add: invalid_date_warnings_def)
next
  case (Cons d ds)
  have "snd (row_timestamp getTime c d) =
          (if unparseable getTime d
           then [ConsoleWarn (''Invalid date: '' @ the (datetime d))] else [])"
    by (auto simp: row_timestamp_def unparseable_def split: option.splits)
  then show ?case using Cons by (simp add: invalid_date_warnings_def)
qed

lemma those_map_Some:
  "(\<forall>x\<in>set xs. f x \<noteq> None) \<Longrightarrow> those (map f xs) = Some (map (\<lambda>x. the (f x)) xs)"
  by (induction xs) auto

text \<open>The result and the effects of \<open>processTimestamps\<close>, case by case.\<close>

lemma processTimestamps_none_survive:
  assumes "\<forall>d\<in>set data. \<not> survives getTime d"
  shows "processTimestamps getTime opts data =
           (\<lparr>timestamps = Some [], timeIndices = [], sortedTimestamps = []\<rparr>,
            invalid_date_warnings getTime data @ [ConsoleError no_timestamps_message] @
              (if has_setError opts then [SetError no_timestamps_message] else []))"
proof -
  define c where "c = (case convertToSeconds opts of None \<Rightarrow> True | Some b \<Rightarrow> b)"
  have "filter (survives getTime) data = []" using assms by (simp add: filter_empty_conv)
  then have "length (filter_Boolean (map fst (map (row_timestamp getTime c) data))) = 0"
    by (simp only: length_surviving_timestamps list.size)
  then show ?thesis
    unfolding processTimestamps_def Let_def c_def[symmetric] row_warnings by simp
qed

lemma processTimestamps_some_survive:
  assumes "\<exists>d\<in>set data. survives getTime d"
  shows "snd (processTimestamps getTime opts data) = invalid_date_warnings getTime data"
    and "timestamps (fst (processTimestamps getTime opts data)) = None"
    and "length (sortedTimestamps (fst (processTimestamps getTime opts data)))
           = length (filter (survives getTime) data)"
    and "length (timeIndices (fst (processTimestamps getTime opts data)))
           = length (filter (survives getTime) data)"
    and "sorted (sortedTimestamps (fst (processTimestamps getTime opts data)))"
proof -
  define c where "c = (case convertToSeconds opts of None \<Rightarrow> True | Some b \<Rightarrow> b)"
  define ts where "ts = filter_Boolean (map fst (map (row_timestamp getTime c) data))"
  have "filter (survives getTime) data \<noteq> []" using assms by (simp add: filter_empty_conv)
  moreover have len: "length ts = length (filter (survives getTime) data)"
    unfolding ts_def by (rule length_surviving_timestamps)
  ultimately have n: "length ts \<noteq> 0" by simp
  have e: "processTimestamps getTime opts data =
             (\<lparr>timestamps = None, timeIndices = sort_key (\<lambda>i. ts ! i) [0..<length ts],
               sortedTimestamps = map (\<lambda>i. ts ! i) (sort_key (\<lambda>i. ts ! i) [0..<length ts])\<rparr>,
              invalid_date_warnings getTime data)"
    unfolding processTimestamps_def Let_def c_def[symmetric] row_warnings ts_def[symmetric]
    using n by simp
  show "snd (processTimestamps getTime opts data) = invalid_date_warnings getTime data"
    by (simp add: e)
  show "timestamps (fst (processTimestamps getTime opts data)) = None"
    by (simp add: e)
  show "length (sortedTimestamps (fst (processTimestamps getTime opts data)))
          = length (filter (survives getTime) data)"
    by (simp add: e len)
  show "length (timeIndices (fst (processTimestamps getTime opts data)))
          = length (filter (survives getTime) data)"
    by (simp add: e len)
  show "sorted (sortedTimestamps (fst (processTimestamps getTime opts data)))"
    by (simp add: e sorted_sort_key)
qed

lemma timeIndices_in_range:
  assumes "i \<in> set (timeIndices (fst (processTimestamps getTime opts data)))"
  shows "i < length data"
proof -
  define c where "c = (case convertToSeconds opts of None \<Rightarrow> True | Some b \<Rightarrow> b)"
  define ts where "ts = filter_Boolean (map fst (map (row_timestamp getTime c) data))"
  have "set (timeIndices (fst (processTimestamps getTime opts data))) \<subseteq> {0..<length ts}"
    unfolding processTimestamps_def Let_def c_def[symmetric] ts_def[symmetric] by simp
  then have "i < length ts" using assms by auto
  also have "length ts \<le> length data"
    unfolding ts_def by (simp only: length_surviving_timestamps) simp
  finally show ?thesis .
qed

lemma processChartData_try_returns:
  "\<exists>outcome. processChartData_try getTime data dataColumn minDate maxDate MAX_POINTS
      = Inr outcome"
proof -
  define fd where "fd = getFilteredData getTime data dataColumn minDate maxDate MAX_POINTS"
  define res where "res = fst (processTimestamps getTime
      \<lparr>convertToSeconds = Some True, has_setError = False\<rparr> fd)"
  have "\<forall>i\<in>set (timeIndices res). column_value fd dataColumn i \<noteq> None"
    unfolding res_def using timeIndices_in_range by (auto simp: column_value_def)
  then have "those (map (column_value fd dataColumn) (timeIndices res)) \<noteq> None"
    by (simp add: those_map_Some)
  then show ?thesis
    unfolding processChartData_try_def Let_def fd_def[symmetric] res_def[symmetric]
    by (auto split: option.splits)
qed

lemma processChartData_none_survive:
  assumes "\<forall>d\<in>set (getFilteredData getTime data dataColumn minDate maxDate MAX_POINTS).
             \<not> survives getTime d"
  shows "processChartData getTime data dataColumn minDate maxDate MAX_POINTS =
           \<lparr>error_state = Some
              (if getFilteredData getTime data dataColumn minDate maxDate MAX_POINTS = []
               then ''No valid data points found with both datetime and '' @ dataColumn
                      @ '' values in selected range''
               else ''No valid '' @ dataColumn @ '' values found in the data in selected range''),
            chart = None\<rparr>"
proof -
  define fd where "fd = getFilteredData getTime data dataColumn minDate maxDate MAX_POINTS"
  have "timeIndices (fst (processTimestamps getTime
          \<lparr>convertToSeconds = Some True, has_setError = False\<rparr> fd)) = []"
    using assms processTimestamps_none_survive[of fd getTime] unfolding fd_def by simp
  then show ?thesis
    unfolding processChartData_def processChartData_try_def Let_def fd_def[symmetric]
    by simp
qed

text \<open>
  C1.  The end-to-end scenario on the code.  For the three rows
  \<open>[{01Z, v:10}, {bad, v:20}, {00Z, v:30}]\<close> (with \<open>T0\<close> the epoch milliseconds of the third
  row's time) \<open>processTimestamps\<close> drops the unparseable row and returns the sorted timestamps
  \<open>[T0/1000, T0/1000 + 1]\<close>, but its \<open>timeIndices\<close> are \<open>[1, 0]\<close>: positions in the filtered
  timestamp array, not the original row indices \<open>[2, 0]\<close>.  \<open>processChartData\<close> reads the rows
  at these positions and so aligns the column \<open>v\<close> to \<open>[20, 10]\<close>, not \<open>[30, 10]\<close>.
\<close>

theorem scenario_timeIndices_are_filtered_positions:
  assumes "getTime ''2024-01-01T00:00:01Z'' = Some (T0 + 1000)"
    and "getTime ''bad'' = None"
    and "getTime ''2024-01-01T00:00:00Z'' = Some T0"
    and "0 < T0"
  shows "processTimestamps getTime \<lparr>convertToSeconds = Some True, has_setError = False\<rparr>
             scenario_rows
           = (\<lparr>timestamps = None, timeIndices = [1, 0],
                sortedTimestamps = [real_of_int T0 / 1000, real_of_int T0 / 1000 + 1]\<rparr>,
              [ConsoleWarn ''Invalid date: bad'']) \<and>
         processChartData getTime scenario_rows ''v'' None None 20000
           = \<lparr>error_state = None,
              chart = Some ([real_of_int T0 / 1000, real_of_int T0 / 1000 + 1],
                            [Some 20, Some 10])\<rparr>"
proof -
  have pt: "processTimestamps getTime \<lparr>convertToSeconds = Some True, has_setError = False\<rparr>
               scenario_rows
             = (\<lparr>timestamps = None, timeIndices = [1, 0],
                  sortedTimestamps = [real_of_int T0 / 1000, real_of_int T0 / 1000 + 1]\<rparr>,
                [ConsoleWarn ''Invalid date: bad''])"
    using assms
    by (simp add: processTimestamps_def scenario_rows_def row_timestamp_def upt_conv_Cons
        Let_def add_divide_distrib)
  have fd: "getFilteredData getTime scenario_rows ''v'' None None 20000 = scenario_rows"
    by (simp add: getFilteredData_def validData_of_def scenario_rows_def truthy_datetime_def
        field_def)
  have vals: "those (map (column_value scenario_rows ''v'') [1, 0]) = Some [Some 20, Some 10]"
    by (simp add: column_value_def scenario_rows_def field_def)
  have ne: "length scenario_rows \<noteq> 0" by (simp add: scenario_rows_def)
  have "processChartData getTime scenario_rows ''v'' None None 20000
          = \<lparr>error_state = None,
             chart = Some ([real_of_int T0 / 1000, real_of_int T0 / 1000 + 1],
                           [Some 20, Some 10])\<rparr>"
    unfolding processChartData_def processChartData_try_def Let_def fd pt
    using ne vals by simp
  with pt show ?thesis by simp
qed

theorem scenario_timeIndices_witness:
  "processChartData
     (\<lambda>s. if s = ''2024-01-01T00:00:01Z'' then Some 1704067201000
           else if s = ''2024-01-01T00:00:00Z'' then Some 1704067200000 else None)
     scenario_rows ''v'' None None 20000
   = \<lparr>error_state = None, chart = Some ([1704067200, 1704067201], [Some 20, Some 10])\<rparr>"
  using scenario_timeIndices_are_filtered_positions
    [of "\<lambda>s. if s = ''2024-01-01T00:00:01Z'' then Some 1704067201000
              else if s = ''2024-01-01T00:00:00Z'' then Some 1704067200000 else None"
        1704067200000]
  by simp

text \<open>
  C9.  A row whose \<open>datetime\<close> parses to the epoch value 0 (such as
  \<open>1970-01-01T00:00:00Z\<close>) is dropped by \<open>processTimestamps\<close> although it is parseable: the
  result and the effects are those of the data without the row, it raises no warning, and on
  its own it yields the "no valid timestamps" result.
\<close>

theorem processTimestamps_drops_epoch_zero:
  assumes "datetime d = Some s" and "s \<noteq> []" and "getTime s = Some 0"
  shows "processTimestamps getTime opts (xs @ d # ys) = processTimestamps getTime opts (xs @ ys) \<and>
         \<not> unparseable getTime d \<and>
         processTimestamps getTime opts [d] =
           (\<lparr>timestamps = Some [], timeIndices = [], sortedTimestamps = []\<rparr>,
            [ConsoleError no_timestamps_message] @
              (if has_setError opts then [SetError no_timestamps_message] else []))"
proof -
  have r: "row_timestamp getTime c d = (Some 0, [])" for c
    using assms by (simp add: row_timestamp_def)
  have a: "filter_Boolean (map fst (map (row_timestamp getTime c) (xs @ d # ys)))
             = filter_Boolean (map fst (map (row_timestamp getTime c) (xs @ ys)))" for c
    by (simp add: filter_Boolean_append r)
  have b: "concat (map snd (map (row_timestamp getTime c) (xs @ d # ys)))
             = concat (map snd (map (row_timestamp getTime c) (xs @ ys)))" for c
    by (simp add: r)
  have 1: "processTimestamps getTime opts (xs @ d # ys) = processTimestamps getTime opts (xs @ ys)"
    unfolding processTimestamps_def Let_def a b ..
  have 2: "\<not> unparseable getTime d" using assms by (simp add: unparseable_def)
  have 3: "processTimestamps getTime opts [d] =
           (\<lparr>timestamps = Some [], timeIndices = [], sortedTimestamps = []\<rparr>,
            [ConsoleError no_timestamps_message] @
              (if has_setError opts then [SetError no_timestamps_message] else []))"
    unfolding processTimestamps_def Let_def by (simp add: r)
  from 1 2 3 show ?thesis by simp
qed

theorem processTimestamps_drops_epoch_zero_witness:
  "processTimestamps (\<lambda>s. if s = ''1970-01-01T00:00:00Z'' then Some 0 else Some 5000)
     \<lparr>convertToSeconds = Some True, has_setError = True\<rparr>
     [\<lparr>datetime = Some ''2024'', cols = Map.empty\<rparr>,
      \<lparr>datetime = Some ''1970-01-01T00:00:00Z'', cols = Map.empty\<rparr>]
   = (\<lparr>timestamps = None, timeIndices = [0], sortedTimestamps = [5]\<rparr>, []) \<and>
   processTimestamps (\<lambda>s. if s = ''1970-01-01T00:00:00Z'' then Some 0 else Some 5000)
     \<lparr>convertToSeconds = Some True, has_setError = True\<rparr>
     [\<lparr>datetime = Some ''1970-01-01T00:00:00Z'', cols = Map.empty\<rparr>]
   = (\<lparr>timestamps = Some [], timeIndices = [], sortedTimestamps = []\<rparr>,
      [ConsoleError no_timestamps_message, SetError no_timestamps_message])"
proof -
  let ?g = "\<lambda>s. if s = ''1970-01-01T00:00:00Z'' then Some (0::int) else Some 5000"
  let ?o = "\<lparr>convertToSeconds = Some True, has_setError = True\<rparr>"
  let ?d = "\<lparr>datetime = Some ''1970-01-01T00:00:00Z'', cols = Map.empty\<rparr>"
  let ?a = "\<lparr>datetime = Some ''2024'', cols = Map.empty\<rparr>"
  have k: "processTimestamps ?g ?o [?a]
             = (\<lparr>timestamps = None, timeIndices = [0], sortedTimestamps = [5]\<rparr>, [])"
    by (simp add: processTimestamps_def row_timestamp_def Let_def)
  show ?thesis
    using processTimestamps_drops_epoch_zero
      [of ?d "''1970-01-01T00:00:00Z''" ?g ?o "[?a]" "[]"] k
    by simp
qed

text \<open>
  C10.  With both \<open>minDate\<close> and \<open>maxDate\<close> set, \<open>getFilteredData\<close> returns the rows of the
  valid data that lie in the range, without decimation, so for every \<open>MAX_POINTS\<close> there is
  data for which it returns more than \<open>MAX_POINTS\<close> rows.  When either bound is \<open>null\<close> it
  returns the valid data, decimated iff there are more than \<open>MAX_POINTS\<close> rows.
\<close>

theorem getFilteredData_range_skips_decimation:
  "getFilteredData getTime data dataColumn (Some lo) (Some hi) MAX_POINTS
     = filter (in_date_range getTime lo hi) (validData_of data dataColumn) \<and>
   (minDate = None \<or> maxDate = None \<longrightarrow>
      getFilteredData getTime data dataColumn minDate maxDate MAX_POINTS
        = (if length (validData_of data dataColumn) > MAX_POINTS
           then decimateData (validData_of data dataColumn) MAX_POINTS
           else validData_of data dataColumn)) \<and>
   (\<exists>rows. length (getFilteredData (\<lambda>s. Some 1) rows ''v'' (Some 0) (Some 2) MAX_POINTS)
              > MAX_POINTS)"
proof (intro conjI impI)
  show "getFilteredData getTime data dataColumn (Some lo) (Some hi) MAX_POINTS
     = filter (in_date_range getTime lo hi) (validData_of data dataColumn)"
    by (simp add: getFilteredData_def)
next
  assume "minDate = None \<or> maxDate = None"
  then show "getFilteredData getTime data dataColumn minDate maxDate MAX_POINTS
        = (if length (validData_of data dataColumn) > MAX_POINTS
           then decimateData (validData_of data dataColumn) MAX_POINTS
           else validData_of data dataColumn)"
    by (auto simp: getFilteredData_def Let_def split: option.splits)
next
  let ?r = "\<lparr>datetime = Some ''t'', cols = [''v'' \<mapsto> JNum 1]\<rparr>"
  have "getFilteredData (\<lambda>s. Some 1) (replicate (Suc MAX_POINTS) ?r) ''v'' (Some 0) (Some 2)
          MAX_POINTS = replicate (Suc MAX_POINTS) ?r"
    by (simp add: getFilteredData_def validData_of_def truthy_datetime_def field_def
        in_date_range_def)
  then have "length (getFilteredData (\<lambda>s. Some 1) (replicate (Suc MAX_POINTS) ?r) ''v''
          (Some 0) (Some 2) MAX_POINTS) > MAX_POINTS"
    by simp
  then show "\<exists>rows. length (getFilteredData (\<lambda>s. Some 1) rows ''v'' (Some 0) (Some 2)
          MAX_POINTS) > MAX_POINTS" ..
qed

theorem getFilteredData_range_witness:
  "getFilteredData (\<lambda>s. Some 1)
     [\<lparr>datetime = Some ''a'', cols = [''v'' \<mapsto> JNum 1]\<rparr>,
      \<lparr>datetime = Some ''b'', cols = [''v'' \<mapsto> JNum 2]\<rparr>] ''v'' (Some 0) (Some 2) 1
   = [\<lparr>datetime = Some ''a'', cols = [''v'' \<mapsto> JNum 1]\<rparr>,
      \<lparr>datetime = Some ''b'', cols = [''v'' \<mapsto> JNum 2]\<rparr>] \<and>
   getFilteredData (\<lambda>s. Some 1)
     [\<lparr>datetime = Some ''a'', cols = [''v'' \<mapsto> JNum 1]\<rparr>,
      \<lparr>datetime = Some ''b'', cols = [''v'' \<mapsto> JNum 2]\<rparr>] ''v'' None (Some 2) 1
   = [\<lparr>datetime = Some ''a'', cols = [''v'' \<mapsto> JNum 1]\<rparr>]"
proof -
  let ?rows = "[\<lparr>datetime = Some ''a'', cols = [''v'' \<mapsto> JNum 1]\<rparr>,
                \<lparr>datetime = Some ''b'', cols = [''v'' \<mapsto> JNum 2]\<rparr>]"
  have v: "validData_of ?rows ''v'' = ?rows"
    by (simp add: validData_of_def truthy_datetime_def field_def)
  have d: "decimateData ?rows 1 = [\<lparr>datetime = Some ''a'', cols = [''v'' \<mapsto> JNum 1]\<rparr>]"
    by (simp add: decimateData_def skipFactor_of_def filter_index_def index_selected_def)
  have f: "filter (in_date_range (\<lambda>s. Some 1) 0 2) ?rows = ?rows"
    by (simp add: in_date_range_def)
  show ?thesis
    using getFilteredData_range_skips_decimation
      [of "\<lambda>s. Some 1" ?rows "''v''" 0 2 1 None "Some 2"]
    unfolding v d f by simp
qed

text \<open>
  C8.  Timestamp normalization never throws.  \<open>processTimestamps\<close> has a result for every
  row list: when no row survives, it is the explicit empty result, announced by the console
  error "No valid timestamps found in the data" (and by \<open>setError\<close> when the caller passed
  one); otherwise processing continues over the surviving rows, one timestamp for each.  In
  both cases every unparseable row is dropped with its own "Invalid date" warning.  In the
  caller, the \<open>try\<close> block of \<open>processChartData\<close> always completes normally (its row reads
  stay in range), and when no filtered row survives the caller returns \<open>null\<close> with an explicit
  "no valid data points" or "no valid values" message in its error state.
\<close>

theorem timestamp_normalization_never_throws:
  "((\<forall>d\<in>set data. \<not> survives getTime d) \<longrightarrow>
      processTimestamps getTime opts data =
        (\<lparr>timestamps = Some [], timeIndices = [], sortedTimestamps = []\<rparr>,
         invalid_date_warnings getTime data @ [ConsoleError no_timestamps_message] @
           (if has_setError opts then [SetError no_timestamps_message] else []))) \<and>
   ((\<exists>d\<in>set data. survives getTime d) \<longrightarrow>
      snd (processTimestamps getTime opts data) = invalid_date_warnings getTime data \<and>
      length (sortedTimestamps (fst (processTimestamps getTime opts data)))
        = length (filter (survives getTime) data)) \<and>
   (\<exists>outcome. processChartData_try getTime data dataColumn minDate maxDate MAX_POINTS
      = Inr outcome) \<and>
   ((\<forall>d\<in>set (getFilteredData getTime data dataColumn minDate maxDate MAX_POINTS).
        \<not> survives getTime d) \<longrightarrow>
      processChartData getTime data dataColumn minDate maxDate MAX_POINTS =
        \<lparr>error_state = Some
           (if getFilteredData getTime data dataColumn minDate maxDate MAX_POINTS = []
            then ''No valid data points found with both datetime and '' @ dataColumn
                   @ '' values in selected range''
            else ''No valid '' @ dataColumn @ '' values found in the data in selected range''),
         chart = None\<rparr>)"
  using processTimestamps_none_survive[of data getTime opts]
    processTimestamps_some_survive(1,3)[of data getTime opts]
    processChartData_try_returns[of getTime data dataColumn minDate maxDate MAX_POINTS]
    processChartData_none_survive[of getTime data dataColumn minDate maxDate MAX_POINTS]
  by blast

theorem timestamp_normalization_witness:
  "processTimestamps (\<lambda>s. None) \<lparr>convertToSeconds = None, has_setError = True\<rparr>
     [\<lparr>datetime = Some ''bad'', cols = [''v'' \<mapsto> JNum 20]\<rparr>]
   = (\<lparr>timestamps = Some [], timeIndices = [], sortedTimestamps = []\<rparr>,
      [ConsoleWarn ''Invalid date: bad'', ConsoleError no_timestamps_message,
       SetError no_timestamps_message]) \<and>
   processChartData (\<lambda>s. None)
     [\<lparr>datetime = Some ''bad'', cols = [''v'' \<mapsto> JNum 20]\<rparr>] ''v'' None None 20000
   = \<lparr>error_state = Some ''No valid v values found in the data in selected range'',
      chart = None\<rparr> \<and>
   snd (processTimestamps (\<lambda>s. if s = ''bad'' then None else Some 7000)
     \<lparr>convertToSeconds = None, has_setError = True\<rparr>
     [\<lparr>datetime = Some ''bad'', cols = Map.empty\<rparr>, \<lparr>datetime = Some ''ok'', cols = Map.empty\<rparr>])
   = [ConsoleWarn ''Invalid date: bad'']"
proof -
  let ?bad = "\<lparr>datetime = Some ''bad'', cols = [''v'' \<mapsto> JNum 20]\<rparr>"
  let ?o = "\<lparr>convertToSeconds = None, has_setError = True\<rparr>"
  let ?g = "\<lambda>s. if s = ''bad'' then None else Some (7000::int)"
  let ?rows = "[\<lparr>datetime = Some ''bad'', cols = Map.empty\<rparr>,
                \<lparr>datetime = Some ''ok'', cols = Map.empty\<rparr>]"
  have fd: "getFilteredData (\<lambda>s. None) [?bad] ''v'' None None 20000 = [?bad]"
    by (simp add: getFilteredData_def validData_of_def truthy_datetime_def field_def)
  have s: "\<not> survives (\<lambda>s. None) ?bad" by (simp add: survives_def)
  have w: "invalid_date_warnings (\<lambda>s. None) [?bad] = [ConsoleWarn ''Invalid date: bad'']"
    by (simp add: invalid_date_warnings_def unparseable_def)
  have s2: "\<exists>d\<in>set ?rows. survives ?g d" by (simp add: survives_def)
  have w2: "invalid_date_warnings ?g ?rows = [ConsoleWarn ''Invalid date: bad'']"
    by (simp add: invalid_date_warnings_def unparseable_def)
  note A = timestamp_normalization_never_throws[of "[?bad]" "\<lambda>s. None" ?o "''v''" None None 20000]
  note B = timestamp_normalization_never_throws[of ?rows ?g ?o "''v''" None None 20000]
  have 1: "processTimestamps (\<lambda>s. None) ?o [?bad]
     = (\<lparr>timestamps = Some [], timeIndices = [], sortedTimestamps = []\<rparr>,
        [ConsoleWarn ''Invalid date: bad'', ConsoleError no_timestamps_message,
         SetError no_timestamps_message])"
    using A s w by simp
  have 2: "processChartData (\<lambda>s. None) [?bad] ''v'' None None 20000
     = \<lparr>error_state = Some ''No valid v values found in the data in selected range'',
        chart = None\<rparr>"
    using A s unfolding fd by simp
  have 3: "snd (processTimestamps ?g ?o ?rows) = [ConsoleWarn ''Invalid date: bad'']"
    using conjunct1[OF mp[OF conjunct1[OF conjunct2[OF B]] s2]] w2 by simp
  from 1 2 3 show ?thesis by simp
qed

section \<open>Properties of guardedRange\<close>

lemma guardedRange_width:
  assumes "\<forall>lo hi. minv = Some lo \<and> maxv = Some hi \<longrightarrow> lo \<le> hi"
  shows "fst (guardedRange minv maxv) < snd (guardedRange minv maxv)"
proof (cases minv)
  case None
  then show ?thesis
    by (cases maxv) (simp_all add: guardedRange_def paddedRange_def)
next
  case (Some lo)
  show ?thesis
  proof (cases maxv)
    case None
    with Some show ?thesis by (simp add: guardedRange_def paddedRange_def)
  next
    case (Some hi)
    with \<open>minv = Some lo\<close> assms have le: "lo \<le> hi" by simp
    show ?thesis
    proof (cases "lo = hi")
      case True
      with Some \<open>minv = Some lo\<close> show ?thesis
        by (simp add: guardedRange_def Let_def)
    next
      case False
      with le have "lo < hi" by simp
      then have "lo - (hi - lo) * 0.05 < hi + (hi - lo) * 0.05" by (simp add: field_simps)
      with False Some \<open>minv = Some lo\<close> show ?thesis
        by (simp add: guardedRange_def paddedRange_def Let_def)
    qed
  qed
qed

text \<open>
  C5.  \<open>guardedRange\<close> is the range callback of the chart's scales: its arguments are the
  extrema of the data, both \<open>null\<close> or two numbers with \<open>min \<le> max\<close>.
  \<open>guardedRange(null, null)\<close> is \<open>[0, 100]\<close>.  For equal non-null arguments \<open>m\<close> the result is
  \<open>[m - delta, m + delta]\<close> with \<open>delta = |m|\<close> if that is non-zero and the constant 100
  otherwise, so \<open>guardedRange(5, 5) = [0, 10]\<close>.  Otherwise it is
  \<open>[min - 0.05 (max - min), max + 0.05 (max - min)]\<close>, so \<open>guardedRange(2, 10) = [1.6, 10.4]\<close>.
  In every case the result has strictly positive width.  Neither \<open>guardedRange\<close> nor
  \<open>paddedRange\<close> divides, so there is no division by zero.
\<close>

theorem guardedRange_spec:
  "guardedRange None None = (0, 100) \<and>
   guardedRange (Some m) (Some m)
     = (m - (if m = 0 then 100 else \<bar>m\<bar>), m + (if m = 0 then 100 else \<bar>m\<bar>)) \<and>
   guardedRange (Some 5) (Some 5) = (0, 10) \<and>
   (lo \<noteq> hi \<longrightarrow>
      guardedRange (Some lo) (Some hi) = (lo - 0.05 * (hi - lo), hi + 0.05 * (hi - lo))) \<and>
   guardedRange (Some 2) (Some 10) = (1.6, 10.4) \<and>
   ((\<forall>a b. minv = Some a \<and> maxv = Some b \<longrightarrow> a \<le> b) \<longrightarrow>
      fst (guardedRange minv maxv) < snd (guardedRange minv maxv))"
proof (intro conjI impI)
  show "guardedRange None None = (0, 100)" by (simp add: guardedRange_def)
  show "guardedRange (Some m) (Some m)
          = (m - (if m = 0 then 100 else \<bar>m\<bar>), m + (if m = 0 then 100 else \<bar>m\<bar>))"
    by (simp add: guardedRange_def Let_def)
  show "guardedRange (Some 5) (Some 5) = (0, 10)" by (simp add: guardedRange_def)
  show "guardedRange (Some 2) (Some 10) = (1.6, 10.4)"
    by (simp add: guardedRange_def paddedRange_def)
next
  assume "lo \<noteq> hi"
  then show "guardedRange (Some lo) (Some hi) = (lo - 0.05 * (hi - lo), hi + 0.05 * (hi - lo))"
    by (auto simp: guardedRange_def paddedRange_def Let_def)
next
  assume "\<forall>a b. minv = Some a \<and> maxv = Some b \<longrightarrow> a \<le> b"
  then show "fst (guardedRange minv maxv) < snd (guardedRange minv maxv)"
    by (rule guardedRange_width)
qed

theorem guardedRange_spec_witness:
  "(3::real) \<noteq> 4 \<and> (3::real) \<le> 4 \<and> guardedRange (Some 3) (Some 4) = (2.95, 4.05) \<and>
   fst (guardedRange (Some 3) (Some 4)) < snd (guardedRange (Some 3) (Some 4)) \<and>
   guardedRange (Some 0) (Some 0) = (-100, 100) \<and>
   fst (guardedRange (Some 0) (Some 0)) < snd (guardedRange (Some 0) (Some 0)) \<and>
   fst (guardedRange None None) < snd (guardedRange None None)"
proof -
  note T = guardedRange_spec[of 0 3 4 "Some 3" "Some 4"]
  note U = guardedRange_spec[of 0 3 4 "Some 0" "Some 0"]
  note V = guardedRange_spec[of 0 3 4 None None]
  have 1: "guardedRange (Some 3) (Some 4) = (2.95, 4.05)" using T by simp
  have 2: "fst (guardedRange (Some 3) (Some 4)) < snd (guardedRange (Some 3) (Some 4))"
    using T by simp
  have 3: "guardedRange (Some 0) (Some 0) = (-100, 100)" using T by simp
  have 4: "fst (guardedRange (Some 0) (Some 0)) < snd (guardedRange (Some 0) (Some 0))"
    using U by simp
  have 5: "fst (guardedRange None None) < snd (guardedRange None None)"
    using V by simp
  from 1 2 3 4 5 show ?thesis by simp
qed

section \<open>Properties of the pan and zoom handlers\<close>

lemma onmove_y_distr: "y_distr (onmove e d clientX clientY s) = y_distr s"
  by (simp add: onmove_def Let_def)

lemma onmove_within_limits:
  assumes "within_limits e s"
  shows "within_limits e (onmove e d clientX clientY s)"
  using assms
  by (simp add: onmove_def Let_def within_limits_def xPaddingFactor_def yPaddingFactor_def)

lemma onmove_log_min:
  assumes "y_distr s = 3"
  shows "y_min (onmove e d clientX clientY s) = y_min s
           \<or> 1 / 10 ^ 20 < y_min (onmove e d clientX clientY s)"
  using assms by (simp add: onmove_def Let_def)

text \<open>An invariant of the scales that every \<open>onmove\<close> keeps is kept by a whole pan run.\<close>

lemma fold_onmove_invariant:
  assumes "\<And>d s. P s \<Longrightarrow> P (onmove e d clientX clientY s)" and "P s"
  shows "P (fold (\<lambda>d. onmove e d clientX clientY) listeners s)"
  using assms(2) by (induction listeners arbitrary: s) (simp_all add: assms(1))

lemma pan_step_invariant:
  assumes "\<And>d clientX clientY s. P s \<Longrightarrow> P (onmove e d clientX clientY s)" and "P (fst st)"
  shows "P (fst (pan_step e ev st))"
proof (cases st)
  case (Pair s listeners)
  with assms(2) have s: "P s" by simp
  show ?thesis
  proof (cases ev)
    case (Mousedown button clientX clientY xu yu)
    with Pair s show ?thesis by simp
  next
    case (Mousemove clientX clientY)
    have "P (fold (\<lambda>d. onmove e d clientX clientY) listeners s)"
      by (rule fold_onmove_invariant) (use assms(1) s in simp_all)
    with Pair Mousemove show ?thesis by simp
  next
    case Mouseup
    with Pair s show ?thesis by simp
  qed
qed

lemma pan_run_invariant:
  assumes "\<And>d clientX clientY s. P s \<Longrightarrow> P (onmove e d clientX clientY s)" and "P (fst st)"
  shows "P (fst (pan_run e events st))"
  unfolding pan_run_def using assms(2)
proof (induction events arbitrary: st)
  case Nil
  then show ?case by simp
next
  case (Cons ev events)
  have "P (fst (pan_step e ev st))"
    by (rule pan_step_invariant) (use assms(1) Cons.prems in simp_all)
  then show ?case using Cons.IH by simp
qed

text \<open>
  C3.  For every sequence of middle-button drag-pan events, whatever listeners are already
  registered: a viewport within the pan limits (the captured extent widened by 1% of its
  range per side) stays within them, that is, no bound ever lies below \<open>min - tolerance\<close> or
  above \<open>max + tolerance\<close> of the extent.  On a logarithmic \<open>y\<close> scale (\<open>distr = 3\<close>) every
  pan step leaves the minimum alone or sets it above \<open>1e-20\<close>; so a minimum above \<open>1e-20\<close>
  stays above \<open>1e-20\<close>, and a positive minimum stays positive.
\<close>

theorem pan_stays_within_limits:
  "(within_limits e s \<longrightarrow> within_limits e (fst (pan_run e events (s, listeners)))) \<and>
   (y_distr s = 3 \<and> 1 / 10 ^ 20 < y_min s \<longrightarrow>
      1 / 10 ^ 20 < y_min (fst (pan_run e events (s, listeners)))) \<and>
   (y_distr s = 3 \<and> 0 < y_min s \<longrightarrow> 0 < y_min (fst (pan_run e events (s, listeners)))) \<and>
   (y_distr s = 3 \<longrightarrow>
      y_min (onmove e d clientX clientY s) = y_min s
        \<or> 1 / 10 ^ 20 < y_min (onmove e d clientX clientY s))"
proof (intro conjI impI)
  assume "within_limits e s"
  then show "within_limits e (fst (pan_run e events (s, listeners)))"
    using pan_run_invariant[of "within_limits e" e "(s, listeners)" events]
    by (simp add: onmove_within_limits)
next
  assume a: "y_distr s = 3 \<and> 1 / 10 ^ 20 < y_min s"
  have "\<And>d clientX clientY s. y_distr (s::scales) = 3 \<and> 1 / 10 ^ 20 < y_min s \<Longrightarrow>
          y_distr (onmove e d clientX clientY s) = 3
            \<and> 1 / 10 ^ 20 < y_min (onmove e d clientX clientY s)"
    using onmove_log_min onmove_y_distr by metis
  then have "y_distr (fst (pan_run e events (s, listeners))) = 3
      \<and> 1 / 10 ^ 20 < y_min (fst (pan_run e events (s, listeners)))"
    using pan_run_invariant[of "\<lambda>s::scales. y_distr s = 3 \<and> 1 / 10 ^ 20 < y_min s" e
        "(s, listeners)" events] a
    by simp
  then show "1 / 10 ^ 20 < y_min (fst (pan_run e events (s, listeners)))" by simp
next
  assume a: "y_distr s = 3 \<and> 0 < y_min s"
  have z: "(0::real) < 1 / 10 ^ 20" by simp
  have "\<And>d clientX clientY s. y_distr (s::scales) = 3 \<and> 0 < y_min s \<Longrightarrow>
          y_distr (onmove e d clientX clientY s) = 3 \<and> 0 < y_min (onmove e d clientX clientY s)"
  proof -
    fix d clientX clientY and s :: scales
    assume h: "y_distr s = 3 \<and> 0 < y_min s"
    then have "y_min (onmove e d clientX clientY s) = y_min s
           \<or> 1 / 10 ^ 20 < y_min (onmove e d clientX clientY s)"
      using onmove_log_min by simp
    then have "0 < y_min (onmove e d clientX clientY s)" using h z by linarith
    then show "y_distr (onmove e d clientX clientY s) = 3
        \<and> 0 < y_min (onmove e d clientX clientY s)"
      using h by (simp add: onmove_y_distr)
  qed
  then have "y_distr (fst (pan_run e events (s, listeners))) = 3
      \<and> 0 < y_min (fst (pan_run e events (s, listeners)))"
    using pan_run_invariant[of "\<lambda>s::scales. y_distr s = 3 \<and> 0 < y_min s" e "(s, listeners)" events] a
    by simp
  then show "0 < y_min (fst (pan_run e events (s, listeners)))" by simp
next
  assume "y_distr s = 3"
  then show "y_min (onmove e d clientX clientY s) = y_min s
      \<or> 1 / 10 ^ 20 < y_min (onmove e d clientX clientY s)"
    by (rule onmove_log_min)
qed

theorem pan_stays_within_limits_witness:
  "within_limits (ready \<lparr>x_min = 0, x_max = 10, y_min = 1, y_max = 10, y_distr = 3\<rparr>)
     \<lparr>x_min = 0, x_max = 10, y_min = 1, y_max = 10, y_distr = 3\<rparr> \<and>
   fst (pan_run (ready \<lparr>x_min = 0, x_max = 10, y_min = 1, y_max = 10, y_distr = 3\<rparr>)
          [Mousedown 1 0 0 1 1, Mousemove 0.05 (-0.05), Mousemove 5 5, Mouseup]
          (\<lparr>x_min = 0, x_max = 10, y_min = 1, y_max = 10, y_distr = 3\<rparr>, []))
     = \<lparr>x_min = -0.05, x_max = 9.95, y_min = 1.05, y_max = 10.05, y_distr = 3\<rparr> \<and>
   within_limits (ready \<lparr>x_min = 0, x_max = 10, y_min = 1, y_max = 10, y_distr = 3\<rparr>)
     (fst (pan_run (ready \<lparr>x_min = 0, x_max = 10, y_min = 1, y_max = 10, y_distr = 3\<rparr>)
          [Mousedown 1 0 0 1 1, Mousemove 0.05 (-0.05), Mousemove 5 5, Mouseup]
          (\<lparr>x_min = 0, x_max = 10, y_min = 1, y_max = 10, y_distr = 3\<rparr>, []))) \<and>
   1 / 10 ^ 20 < y_min
     (fst (pan_run (ready \<lparr>x_min = 0, x_max = 10, y_min = 1, y_max = 10, y_distr = 3\<rparr>)
          [Mousedown 1 0 0 1 1, Mousemove 0.05 (-0.05), Mousemove 5 5, Mouseup]
          (\<lparr>x_min = 0, x_max = 10, y_min = 1, y_max = 10, y_distr = 3\<rparr>, [])))"
proof -
  let ?s = "\<lparr>x_min = 0, x_max = 10, y_min = 1, y_max = 10, y_distr = 3\<rparr>"
  let ?evs = "[Mousedown 1 0 0 1 1, Mousemove 0.05 (-0.05), Mousemove 5 5, Mouseup]"
  have w: "within_limits (ready ?s) ?s"
    by (simp add: within_limits_def ready_def xRange_def yRange_def)
  have l: "y_distr ?s = 3 \<and> 1 / 10 ^ 20 < y_min ?s" by simp
  have r: "fst (pan_run (ready ?s) ?evs (?s, []))
             = \<lparr>x_min = -0.05, x_max = 9.95, y_min = 1.05, y_max = 10.05, y_distr = 3\<rparr>"
    by (simp add: pan_run_def onmove_def ready_def xRange_def yRange_def Let_def
        xPaddingFactor_def yPaddingFactor_def)
  note T = pan_stays_within_limits[of "ready ?s" ?s ?evs "[]" d clientX clientY for d clientX clientY]
  have 1: "within_limits (ready ?s) (fst (pan_run (ready ?s) ?evs (?s, [])))"
    using conjunct1[OF T] w by (rule mp)
  have 2: "1 / 10 ^ 20 < y_min (fst (pan_run (ready ?s) ?evs (?s, [])))"
    using conjunct1[OF conjunct2[OF T]] l by (rule mp)
  from w r 1 2 show ?thesis by (intro conjI)
qed

text \<open>
  Dragging the \<open>y\<close> axis translates the scale with no limit: from the viewport equal to the
  extent \<open>[1, 10]\<close> of a logarithmic \<open>y\<close> scale, one axis drag by \<open>-5\<close> pixels (at one unit per
  pixel) sets the scale to \<open>[-4, 5]\<close>, below the pan limit and not positive.
\<close>

theorem axis_drag_counterexample:
  "within_limits (ready \<lparr>x_min = 0, x_max = 10, y_min = 1, y_max = 10, y_distr = 3\<rparr>)
     \<lparr>x_min = 0, x_max = 10, y_min = 1, y_max = 10, y_distr = 3\<rparr> \<and>
   axis_mousemove
     (axis_mousedown \<lparr>x_min = 0, x_max = 10, y_min = 1, y_max = 10, y_distr = 3\<rparr> 0 9 1)
     (-5) False \<lparr>x_min = 0, x_max = 10, y_min = 1, y_max = 10, y_distr = 3\<rparr>
     = \<lparr>x_min = 0, x_max = 10, y_min = -4, y_max = 5, y_distr = 3\<rparr> \<and>
   \<not> within_limits (ready \<lparr>x_min = 0, x_max = 10, y_min = 1, y_max = 10, y_distr = 3\<rparr>)
     (axis_mousemove
        (axis_mousedown \<lparr>x_min = 0, x_max = 10, y_min = 1, y_max = 10, y_distr = 3\<rparr> 0 9 1)
        (-5) False \<lparr>x_min = 0, x_max = 10, y_min = 1, y_max = 10, y_distr = 3\<rparr>) \<and>
   y_min (axis_mousemove
        (axis_mousedown \<lparr>x_min = 0, x_max = 10, y_min = 1, y_max = 10, y_distr = 3\<rparr> 0 9 1)
        (-5) False \<lparr>x_min = 0, x_max = 10, y_min = 1, y_max = 10, y_distr = 3\<rparr>) \<le> 0"
  by (simp add: axis_mousemove_def axis_mousedown_def within_limits_def ready_def
      xRange_def yRange_def Let_def)

text \<open>
  C4.  The zoom round trip on the code, at a viewport that a pan has moved inside its 1%
  tolerance.  With the extent \<open>[0, 100]\<close> on both axes, one pan step moves \<open>y\<close> to
  \<open>[-0.5, 99.5]\<close>, which is within the pan limits.  Zooming in by the factor 0.9 with the
  cursor at the bottom edge of the plot (data coordinate \<open>-0.5\<close>) gives \<open>y = [0, 90]\<close>: the
  \<open>y\<close> clamp of the wheel handler uses the extent without the tolerance.  Zooming out with
  the cursor at the same place gives \<open>[0, 100]\<close>, not the original \<open>[-0.5, 99.5]\<close>, both when
  the anchor is the same data coordinate \<open>-0.5\<close> and when it is the coordinate \<open>0\<close> that the
  zoomed scale has at that pixel; the bounds are off by 0.5, half of the tolerance.  Every
  value of this run (\<open>-0.5\<close>, \<open>99.5\<close>, \<open>100 * 0.9 = 90\<close>, \<open>90 / 0.9 = 100\<close>, the limits \<open>-1\<close> and
  \<open>101\<close>) is the same in double arithmetic.
\<close>

theorem wheel_zoom_after_pan_not_restored:
  "fst (pan_run \<lparr>xMin = 0, xMax = 100, yMin = 0, yMax = 100\<rparr>
          [Mousedown 1 0 0 1 (-1), Mousemove 0 (-0.5)]
          (\<lparr>x_min = 0, x_max = 100, y_min = 0, y_max = 100, y_distr = 1\<rparr>, []))
     = \<lparr>x_min = 0, x_max = 100, y_min = -0.5, y_max = 99.5, y_distr = 1\<rparr> \<and>
   within_limits \<lparr>xMin = 0, xMax = 100, yMin = 0, yMax = 100\<rparr>
     \<lparr>x_min = 0, x_max = 100, y_min = -0.5, y_max = 99.5, y_distr = 1\<rparr> \<and>
   wheel 0.9 \<lparr>xMin = 0, xMax = 100, yMin = 0, yMax = 100\<rparr> 100 100
     \<lparr>deltaY = -1, left = 50, top = 100, xVal = 50, yVal = -0.5\<rparr>
     \<lparr>x_min = 0, x_max = 100, y_min = -0.5, y_max = 99.5, y_distr = 1\<rparr>
   = Some \<lparr>x_min = 5, x_max = 95, y_min = 0, y_max = 90, y_distr = 1\<rparr> \<and>
   wheel 0.9 \<lparr>xMin = 0, xMax = 100, yMin = 0, yMax = 100\<rparr> 100 100
     \<lparr>deltaY = 1, left = 50, top = 100, xVal = 50, yVal = -0.5\<rparr>
     \<lparr>x_min = 5, x_max = 95, y_min = 0, y_max = 90, y_distr = 1\<rparr>
   = Some \<lparr>x_min = 0, x_max = 100, y_min = 0, y_max = 100, y_distr = 1\<rparr> \<and>
   wheel 0.9 \<lparr>xMin = 0, xMax = 100, yMin = 0, yMax = 100\<rparr> 100 100
     \<lparr>deltaY = 1, left = 50, top = 100, xVal = 50, yVal = 0\<rparr>
     \<lparr>x_min = 5, x_max = 95, y_min = 0, y_max = 90, y_distr = 1\<rparr>
   = Some \<lparr>x_min = 0, x_max = 100, y_min = 0, y_max = 100, y_distr = 1\<rparr> \<and>
   \<lparr>x_min = 0, x_max = 100, y_min = 0, y_max = 100, y_distr = 1\<rparr>
     \<noteq> \<lparr>x_min = 0, x_max = 100, y_min = -0.5, y_max = 99.5, y_distr = 1\<rparr>"
proof -
  let ?e = "\<lparr>xMin = 0, xMax = 100, yMin = 0, yMax = 100\<rparr>"
  let ?zin = "\<lparr>deltaY = -1, left = 50, top = 100, xVal = 50, yVal = -0.5\<rparr>"
  let ?zout = "\<lparr>deltaY = 1, left = 50, top = 100, xVal = 50, yVal = -0.5\<rparr>"
  let ?s = "\<lparr>x_min = 0, x_max = 100, y_min = -0.5, y_max = 99.5, y_distr = 1\<rparr>"
  let ?s1 = "\<lparr>x_min = 5, x_max = 95, y_min = 0, y_max = 90, y_distr = 1\<rparr>"
  let ?s2 = "\<lparr>x_min = 0, x_max = 100, y_min = 0, y_max = 100, y_distr = 1\<rparr>"
  have f: "factor_of 0.9 = 0.9" by (simp add: factor_of_def)
  have 0: "fst (pan_run ?e [Mousedown 1 0 0 1 (-1), Mousemove 0 (-0.5)] (?s2, [])) = ?s"
    by (simp add: pan_run_def onmove_def xRange_def yRange_def Let_def
        xPaddingFactor_def yPaddingFactor_def)
  have w: "within_limits ?e ?s"
    by (simp add: within_limits_def xRange_def yRange_def)
  have 1: "wheel 0.9 ?e 100 100 ?zin ?s = Some ?s1"
    by (simp add: f wheel_def clamp_def xRange_def yRange_def Let_def xPaddingFactor_def)
  have 2: "wheel 0.9 ?e 100 100 ?zout ?s1 = Some ?s2"
    by (simp add: f wheel_def clamp_def xRange_def yRange_def Let_def xPaddingFactor_def)
  have z2: "wheel 0.9 ?e 100 100
      \<lparr>deltaY = 1, left = 50, top = 100, xVal = 50, yVal = 0\<rparr> ?s1 = Some ?s2"
    by (simp add: f wheel_def clamp_def xRange_def yRange_def Let_def xPaddingFactor_def)
  have 3: "?s2 \<noteq> ?s" by simp
  from 0 w 1 2 z2 3 show ?thesis by (intro conjI)
qed

section \<open>Properties of the hover hit resolution\<close>

lemma hover_visit_cases:
  "hover_visit cx cy qt st =
     (if hit cx cy qt \<and> (case minDist st of None \<Rightarrow> True | Some m \<Rightarrow> centre_dist cx cy qt < m)
      then \<lparr>minDist = Some (centre_dist cx cy qt), hoverPoint = Some qt\<rparr> else st)"
  by (auto simp: hover_visit_def hit_def Let_def)

lemma hover_inv_step:
  assumes "hover_inv cx cy cands st"
  shows "hover_inv cx cy (cands @ [c]) (hover_visit cx cy c st)"
proof (cases "hoverPoint st")
  case None
  with assms have m: "minDist st = None" and nh: "\<forall>q\<in>set cands. \<not> hit cx cy q"
    by (simp_all add: hover_inv_def)
  show ?thesis
  proof (cases "hit cx cy c")
    case True
    have "\<forall>j<length cands. \<not> hit cx cy (cands ! j)" using nh by simp
    then show ?thesis using True m
      by (auto simp: hover_visit_cases hover_inv_def nth_append intro!: exI[of _ "length cands"])
  next
    case False
    then show ?thesis using None m nh by (simp add: hover_visit_cases hover_inv_def)
  qed
next
  case (Some q)
  with assms obtain i where m: "minDist st = Some (centre_dist cx cy q)"
    and i: "i < length cands" "cands ! i = q" "hit cx cy q"
    and le: "\<forall>j<length cands. hit cx cy (cands ! j) \<longrightarrow> centre_dist cx cy q \<le> centre_dist cx cy (cands ! j)"
    and lt: "\<forall>j<i. hit cx cy (cands ! j) \<longrightarrow> centre_dist cx cy q < centre_dist cx cy (cands ! j)"
    by (auto simp: hover_inv_def)
  show ?thesis
  proof (cases "hit cx cy c \<and> centre_dist cx cy c < centre_dist cx cy q")
    case True
    then have v: "hover_visit cx cy c st = \<lparr>minDist = Some (centre_dist cx cy c), hoverPoint = Some c\<rparr>"
      by (simp add: hover_visit_cases m)
    have "\<forall>j<length cands. hit cx cy (cands ! j) \<longrightarrow> centre_dist cx cy c < centre_dist cx cy (cands ! j)"
      using le True by fastforce
    then show ?thesis unfolding v using True
      by (auto simp: hover_inv_def nth_append less_Suc_eq intro!: exI[of _ "length cands"])
  next
    case False
    then have v: "hover_visit cx cy c st = st" by (auto simp: hover_visit_cases m)
    have n: "hit cx cy c \<longrightarrow> centre_dist cx cy q \<le> centre_dist cx cy c" using False by auto
    have "i < length (cands @ [c]) \<and> (cands @ [c]) ! i = q \<and> hit cx cy q \<and>
             (\<forall>j<length (cands @ [c]). hit cx cy ((cands @ [c]) ! j) \<longrightarrow> centre_dist cx cy q \<le> centre_dist cx cy ((cands @ [c]) ! j)) \<and>
             (\<forall>j<i. hit cx cy ((cands @ [c]) ! j) \<longrightarrow> centre_dist cx cy q < centre_dist cx cy ((cands @ [c]) ! j))"
      using i le lt n by (auto simp: nth_append less_Suc_eq)
    then show ?thesis unfolding v using Some m by (auto simp: hover_inv_def)
  qed
qed

lemma hover_inv_fold:
  "hover_inv cx cy cands (fold (hover_visit cx cy) cands \<lparr>minDist = None, hoverPoint = None\<rparr>)"
proof (induction cands rule: rev_induct)
  case Nil
  show ?case by (simp add: hover_inv_def)
next
  case (snoc c cands)
  then show ?case using hover_inv_step by simp
qed

text \<open>
  C6.  Hover hit resolution over the candidate boxes in traversal order.  A candidate is
  accepted only if the cursor lies within its box, and it is kept only if moreover the
  distance from the cursor to the box centre is at most half the box width (a hit).  The
  result is none iff no candidate is a hit.  Otherwise it is a single candidate that is a
  hit, whose distance is minimal among all hits, and that comes first in traversal order
  among the hits of that minimal distance.  In \<open>cursor.dataIdx\<close>, with the quadtree enabled
  and called for series 1, this is the item stored as the hover point.
\<close>

theorem resolveHover_closest_hit:
  "(resolveHover cx cy candidates = None \<longleftrightarrow> (\<forall>q\<in>set candidates. \<not> hit cx cy q)) \<and>
   (\<forall>q. resolveHover cx cy candidates = Some q \<longrightarrow>
      (\<exists>i<length candidates. candidates ! i = q \<and> hit cx cy q \<and>
         (\<forall>j<length candidates. hit cx cy (candidates ! j) \<longrightarrow>
            centre_dist cx cy q \<le> centre_dist cx cy (candidates ! j)) \<and>
         (\<forall>j<i. hit cx cy (candidates ! j) \<longrightarrow>
            centre_dist cx cy q < centre_dist cx cy (candidates ! j)))) \<and>
   snd (dataIdx True pxRatio cursor_left cursor_top get 1 hoverPointRef)
     = resolveHover (cursor_px cursor_left pxRatio) (cursor_px cursor_top pxRatio)
         (get (cursor_px cursor_left pxRatio) (cursor_px cursor_top pxRatio))"
proof -
  define st where
    "st = fold (hover_visit cx cy) candidates \<lparr>minDist = None, hoverPoint = None\<rparr>"
  have inv: "hover_inv cx cy candidates st" unfolding st_def by (rule hover_inv_fold)
  have r: "resolveHover cx cy candidates = hoverPoint st"
    by (simp add: resolveHover_def st_def)
  have 1: "resolveHover cx cy candidates = None \<longleftrightarrow> (\<forall>q\<in>set candidates. \<not> hit cx cy q)"
  proof (cases "hoverPoint st")
    case None
    with inv r show ?thesis by (simp add: hover_inv_def)
  next
    case (Some q)
    with inv have "\<exists>i<length candidates. candidates ! i = q \<and> hit cx cy q"
      by (auto simp: hover_inv_def)
    then have "\<exists>q\<in>set candidates. hit cx cy q" using nth_mem by blast
    with Some r show ?thesis by simp
  qed
  have 2: "\<forall>q. resolveHover cx cy candidates = Some q \<longrightarrow>
      (\<exists>i<length candidates. candidates ! i = q \<and> hit cx cy q \<and>
         (\<forall>j<length candidates. hit cx cy (candidates ! j) \<longrightarrow>
            centre_dist cx cy q \<le> centre_dist cx cy (candidates ! j)) \<and>
         (\<forall>j<i. hit cx cy (candidates ! j) \<longrightarrow>
            centre_dist cx cy q < centre_dist cx cy (candidates ! j)))"
    using inv r by (auto simp: hover_inv_def)
  have 3: "snd (dataIdx True pxRatio cursor_left cursor_top get 1 hoverPointRef)
     = resolveHover (cursor_px cursor_left pxRatio) (cursor_px cursor_top pxRatio)
         (get (cursor_px cursor_left pxRatio) (cursor_px cursor_top pxRatio))"
    by (simp add: dataIdx_def Let_def split: option.splits)
  from 1 2 3 show ?thesis by (intro conjI)
qed

theorem resolveHover_closest_hit_witness:
  "hit 5 5 \<lparr>qt_x = 3, qt_y = 4, qt_w = 10, qt_h = 10, seriesIndex = 1, dataIndex = Some 0\<rparr> \<and>
   resolveHover 5 5
     [\<lparr>qt_x = 3, qt_y = 4, qt_w = 10, qt_h = 10, seriesIndex = 1, dataIndex = Some 0\<rparr>,
      \<lparr>qt_x = 0, qt_y = 0, qt_w = 10, qt_h = 10, seriesIndex = 1, dataIndex = Some 1\<rparr>,
      \<lparr>qt_x = 0, qt_y = 0, qt_w = 10, qt_h = 10, seriesIndex = 2, dataIndex = Some 2\<rparr>,
      \<lparr>qt_x = 50, qt_y = 50, qt_w = 10, qt_h = 10, seriesIndex = 2, dataIndex = Some 3\<rparr>]
   = Some \<lparr>qt_x = 0, qt_y = 0, qt_w = 10, qt_h = 10, seriesIndex = 1, dataIndex = Some 1\<rparr> \<and>
   resolveHover 5 5
     [\<lparr>qt_x = 3, qt_y = 4, qt_w = 10, qt_h = 10, seriesIndex = 1, dataIndex = Some 0\<rparr>,
      \<lparr>qt_x = 0, qt_y = 0, qt_w = 10, qt_h = 10, seriesIndex = 1, dataIndex = Some 1\<rparr>,
      \<lparr>qt_x = 0, qt_y = 0, qt_w = 10, qt_h = 10, seriesIndex = 2, dataIndex = Some 2\<rparr>,
      \<lparr>qt_x = 50, qt_y = 50, qt_w = 10, qt_h = 10, seriesIndex = 2, dataIndex = Some 3\<rparr>]
   \<noteq> None"
proof -
  let ?b = "\<lparr>qt_x = 3, qt_y = 4, qt_w = 10, qt_h = 10, seriesIndex = 1, dataIndex = Some 0\<rparr>"
  let ?a = "\<lparr>qt_x = 0, qt_y = 0, qt_w = 10, qt_h = 10, seriesIndex = 1, dataIndex = Some 1\<rparr>"
  let ?a' = "\<lparr>qt_x = 0, qt_y = 0, qt_w = 10, qt_h = 10, seriesIndex = 2, dataIndex = Some 2\<rparr>"
  let ?c = "\<lparr>qt_x = 50, qt_y = 50, qt_w = 10, qt_h = 10, seriesIndex = 2, dataIndex = Some 3\<rparr>"
  have h: "hit 5 5 ?b"
    by (simp add: hit_def pointWithin_def centre_dist_def)
  have v: "resolveHover 5 5 [?b, ?a, ?a', ?c] = Some ?a"
    by (simp add: resolveHover_def hover_visit_def pointWithin_def centre_dist_def)
  have "\<not> (\<forall>q\<in>set [?b, ?a, ?a', ?c]. \<not> hit 5 5 q)" using h by simp
  then have n: "resolveHover 5 5 [?b, ?a, ?a', ?c] \<noteq> None"
    using conjunct1[OF resolveHover_closest_hit[of 5 5 "[?b, ?a, ?a', ?c]"]] by blast
  from h v n show ?thesis by (intro conjI)
qed

end
